theory Spec2Isabelle
  imports Main "HOL-Library.AList"
begin

section \<open>JavaScript values reaching the form handler\<close>

text \<open>
  The function \<^verbatim>\<open>netlify/functions/submit-form.js\<close> receives an HTTP event and
  runs \<^verbatim>\<open>JSON.parse\<close> on its body, so every value the code touches is a
  JSON value: \<^verbatim>\<open>null\<close>, a boolean, a number, a string, an array or an
  object.  Strings are lists of code units; \<open>char\<close> covers the code units
  U+0000 to U+00FF.  An object is the list of its own entries, in insertion
  order; a property read takes the first entry of that key (\<open>map_of\<close>).  A
  parsed object inherits from \<^verbatim>\<open>Object.prototype\<close>; the code reads
  \<^verbatim>\<open>form_id\<close>, \<^verbatim>\<open>_honey\<close>, \<^verbatim>\<open>_timestamp\<close> and the required fields of a
  form out of the submission, and \<^verbatim>\<open>Object.prototype\<close> has no member of
  these names, so the own entries decide every read.

  A number is kept in the shape in which ECMAScript's \<^verbatim>\<open>Number::toString\<close>
  reads it: \<open>Num neg s n\<close> is the number \<open>\<plusminus> s \<times> 10\<^sup>n\<^sup>-\<^sup>k\<close>, where \<open>k\<close> is the
  count of decimal digits of \<open>s\<close>, and \<open>s = 0\<close> stands for both zeros: 5 is
  \<open>Num False 5 1\<close>, 1.5 is \<open>Num False 15 1\<close>, -0.02 is \<open>Num True 2 (-1)\<close>.  The
  code looks at a number in two ways only: whether it is zero (truthiness) and
  what its string form is.  A number that \<^verbatim>\<open>JSON.parse\<close> rounds to infinity is
  \<open>Infinity neg\<close>; \<^verbatim>\<open>NaN\<close> is not a JSON value.
\<close>

datatype number = Num bool nat int | Infinity bool

datatype json =
    JNull
  | JBool bool
  | JNum number
  | JStr string
  | JArr "json list"
  | JObj "(string \<times> json) list"

type_synonym obj = "(string \<times> json) list"

text \<open>
  What stops a run of the code.  \<open>TypeError\<close> is the JavaScript exception.
  \<open>Inherited_validator f\<close> marks the one place where the model does not follow
  the code: \<^verbatim>\<open>validators[field]\<close> for a field named like a member of
  \<^verbatim>\<open>Object.prototype\<close> finds that built-in function and calls it.  No form
  of \<^verbatim>\<open>FORM_CONFIGS\<close> has such a required field, and the statements about
  lists of fields leave such names out (\<open>checkable\<close> below).
\<close>

datatype error = TypeError | Inherited_validator string

subsection \<open>Truthiness\<close>

fun is_zero :: "number \<Rightarrow> bool" where
  "is_zero (Num neg s n) = (s = 0)"
| "is_zero (Infinity neg) = False"

text \<open>
  \<^verbatim>\<open>ToBoolean\<close>: \<^verbatim>\<open>null\<close>, \<^verbatim>\<open>false\<close>, zero and the empty
  string are falsy, every array and object is truthy.  \<^verbatim>\<open>undefined\<close> (an absent
  property) is falsy as well; absent properties are \<open>None\<close> below.
\<close>

fun truthy :: "json \<Rightarrow> bool" where
  "truthy JNull = False"
| "truthy (JBool b) = b"
| "truthy (JNum x) = (\<not> is_zero x)"
| "truthy (JStr s) = (s \<noteq> [])"
| "truthy (JArr xs) = True"
| "truthy (JObj kvs) = True"

fun truthy_opt :: "json option \<Rightarrow> bool" where
  "truthy_opt None = False"
| "truthy_opt (Some v) = truthy v"

subsection \<open>Conversion to string\<close>

definition digit_char :: "nat \<Rightarrow> char" where
  "digit_char d = ''0123456789'' ! d"

fun digits :: "nat \<Rightarrow> string" where
  "digits n = (if n < 10 then [digit_char n]
               else digits (n div 10) @ [digit_char (n mod 10)])"

declare digits.simps [simp del]

text \<open>
  \<^verbatim>\<open>Number::toString\<close> for a positive finite number with digits \<open>s\<close> and
  decimal exponent \<open>n\<close> (ECMA-262, 6.1.6.1.20, steps 6 to 10).
\<close>

definition positive_string :: "nat \<Rightarrow> int \<Rightarrow> string" where
  "positive_string s n =
     (let ds = digits s; k = int (length ds) in
      if k \<le> n \<and> n \<le> 21 then ds @ replicate (nat (n - k)) (CHR ''0'')
      else if 0 < n \<and> n \<le> 21 then take (nat n) ds @ ''.'' @ drop (nat n) ds
      else if -6 < n \<and> n \<le> 0 then ''0.'' @ replicate (nat (- n)) (CHR ''0'') @ ds
      else
        let e = n - 1;
            es = (if e < 0 then ''-'' else ''+'') @ digits (nat \<bar>e\<bar>)
        in if k = 1 then ds @ ''e'' @ es
           else take 1 ds @ ''.'' @ drop 1 ds @ ''e'' @ es)"

fun NumberToString :: "number \<Rightarrow> string" where
  "NumberToString (Infinity neg) = (if neg then ''-Infinity'' else ''Infinity'')"
| "NumberToString (Num neg s n) =
     (if s = 0 then ''0''
      else (if neg then ''-'' else '''') @ positive_string s n)"

text \<open>
  \<^verbatim>\<open>Array.prototype.join\<close> with the separator \<^verbatim>\<open>","\<close>, over the string
  forms of the elements; the first element whose conversion throws makes the
  whole join throw.
\<close>

fun join_results :: "(error + string) list \<Rightarrow> error + string" where
  "join_results [] = Inr []"
| "join_results (r # rs) =
     (case r of
        Inl e \<Rightarrow> Inl e
      | Inr s \<Rightarrow>
          (if rs = [] then Inr s
           else (case join_results rs of
                   Inl e \<Rightarrow> Inl e
                 | Inr t \<Rightarrow> Inr (s @ '','' @ t))))"

text \<open>
  \<^verbatim>\<open>ToString\<close>, which the code reaches through a property key
  (\<^verbatim>\<open>FORM_CONFIGS[form_id]\<close>), a template literal, \<^verbatim>\<open>parseInt\<close> and
  \<^verbatim>\<open>RegExp.prototype.test\<close>.  An array joins its elements, with
  \<^verbatim>\<open>null\<close> elements as the empty string.  A parsed object inherits
  \<^verbatim>\<open>Object.prototype.toString\<close> and becomes \<^verbatim>\<open>[object Object]\<close>, unless
  it has an own entry \<^verbatim>\<open>toString\<close>: that entry is a JSON value, so it is not
  callable, \<^verbatim>\<open>valueOf\<close> gives back the object (or is not callable either), and
  \<^verbatim>\<open>OrdinaryToPrimitive\<close> throws a \<^verbatim>\<open>TypeError\<close>.  The recursion through
  nested arrays has no depth limit here; an engine's stack has one.
\<close>

fun ToString :: "json \<Rightarrow> error + string" where
  "ToString JNull = Inr ''null''"
| "ToString (JBool b) = Inr (if b then ''true'' else ''false'')"
| "ToString (JNum x) = Inr (NumberToString x)"
| "ToString (JStr s) = Inr s"
| "ToString (JArr xs) =
     join_results (map (\<lambda>x. if x = JNull then Inr [] else ToString x) xs)"
| "ToString (JObj kvs) =
     (if map_of kvs ''toString'' \<noteq> None then Inl TypeError
      else Inr ''[object Object]'')"

subsection \<open>White space, trimming, parseInt\<close>

text \<open>
  The code units below U+0100 that are \<^verbatim>\<open>WhiteSpace\<close> or
  \<^verbatim>\<open>LineTerminator\<close>: what \<^verbatim>\<open>String.prototype.trim\<close> strips, what
  \<^verbatim>\<open>parseInt\<close> skips and what \<^verbatim>\<open>\s\<close> matches.
\<close>

definition is_ws :: "char \<Rightarrow> bool" where
  "is_ws c = (c \<in> set [CHR 0x09, CHR 0x0A, CHR 0x0B, CHR 0x0C, CHR 0x0D,
                        CHR 0x20, CHR 0xA0])"

definition trim :: "string \<Rightarrow> string" where
  "trim s = rev (dropWhile is_ws (rev (dropWhile is_ws s)))"

definition is_digit :: "char \<Rightarrow> bool" where
  "is_digit c = (c \<in> set ''0123456789'')"

definition digit_value :: "char \<Rightarrow> int" where
  "digit_value c = int (of_char c) - 48"

definition decimal_value :: "string \<Rightarrow> int" where
  "decimal_value ds = foldl (\<lambda>acc c. 10 * acc + digit_value c) 0 ds"

text \<open>
  \<^verbatim>\<open>parseInt(string, 10)\<close>: skip leading white space, read one optional sign,
  read the longest run of decimal digits; \<open>None\<close> is \<^verbatim>\<open>NaN\<close> (no digit).
\<close>

definition parseInt :: "string \<Rightarrow> int option" where
  "parseInt str =
     (let t = dropWhile is_ws str;
          neg = (case t of c # _ \<Rightarrow> c = CHR ''-'' | [] \<Rightarrow> False);
          u = (case t of c # r \<Rightarrow> (if c = CHR ''-'' \<or> c = CHR ''+'' then r else t)
                       | [] \<Rightarrow> t);
          ds = takeWhile is_digit u
      in if ds = [] then None
         else Some ((if neg then - 1 else 1) * decimal_value ds))"

section \<open>Security helpers: sanitizeInput\<close>

text \<open>
  \<^verbatim>\<open>value.replace(/c/g, r)\<close> for a pattern of one character: every
  occurrence of \<open>c\<close> becomes \<open>r\<close>.
\<close>

definition replaceAll :: "char \<Rightarrow> string \<Rightarrow> string \<Rightarrow> string" where
  "replaceAll c r s = concat (map (\<lambda>x. if x = c then r else [x]) s)"

text \<open>
  \<^verbatim>\<open>sanitizeInput\<close>: a value that is not a string is returned as it is; in
  a string the four passes run in the source's order (\<^verbatim>\<open><\<close>, \<^verbatim>\<open>>\<close>,
  the double quote U+0022, the apostrophe U+0027).
\<close>

definition sanitizeString :: "string \<Rightarrow> string" where
  "sanitizeString s =
     replaceAll (CHR 0x27) ''&#x27;''
       (replaceAll (CHR 0x22) ''&quot;''
         (replaceAll (CHR ''>'') ''&gt;''
           (replaceAll (CHR ''<'') ''&lt;'' s)))"

fun sanitizeInput :: "json \<Rightarrow> json" where
  "sanitizeInput (JStr s) = JStr (sanitizeString s)"
| "sanitizeInput v = v"

section \<open>Form configurations\<close>

text \<open>
  \<^verbatim>\<open>onSuccess\<close> is the extension hook of a form: an asynchronous function of
  the sanitized submission that the handler awaits inside \<^verbatim>\<open>try\<close>.  It either
  completes or fails (throws, or returns a promise that rejects) with a cause.
  The hooks of the source only write to the console; the registry below takes
  the hooks as a parameter, one per form, so that a failing hook can be stated.
  A hook that never settles is outside this model.
\<close>

datatype action_result = Fulfilled | Rejected string

type_synonym hook = "obj \<Rightarrow> action_result"

record form_config =
  requiredFields :: "string list"
  optionalFields :: "string list"
  onSuccess :: "hook option"

definition FORM_CONFIGS :: "(string \<Rightarrow> hook) \<Rightarrow> (string \<times> form_config) list" where
  "FORM_CONFIGS hooks =
     [(''contact'',
        \<lparr>requiredFields = [''name'', ''email'', ''message''],
         optionalFields = [''phone'', ''company''],
         onSuccess = Some (hooks ''contact'')\<rparr>),
      (''newsletter'',
        \<lparr>requiredFields = [''email''],
         optionalFields = [''name'', ''preferences''],
         onSuccess = Some (hooks ''newsletter'')\<rparr>),
      (''quote'',
        \<lparr>requiredFields = [''name'', ''email'', ''service_type'', ''budget''],
         optionalFields = [''phone'', ''company'', ''details'', ''timeline''],
         onSuccess = Some (hooks ''quote'')\<rparr>),
      (''callback'',
        \<lparr>requiredFields = [''name'', ''phone''],
         optionalFields = [''preferred_time'', ''notes''],
         onSuccess = Some (hooks ''callback'')\<rparr>)]"

text \<open>The hooks as the source has them: log the submission, then complete.\<close>

definition source_hooks :: "string \<Rightarrow> hook" where
  "source_hooks form = (\<lambda>data. Fulfilled)"

text \<open>
  \<^verbatim>\<open>FORM_CONFIGS\<close> and \<^verbatim>\<open>validators\<close> are object literals, so a property
  read with a computed key also finds the members they inherit from
  \<^verbatim>\<open>Object.prototype\<close>.  These are its property names.
\<close>

definition Object_prototype_keys :: "string list" where
  "Object_prototype_keys =
     [''constructor'', ''__defineGetter__'', ''__defineSetter__'', ''hasOwnProperty'',
      ''__lookupGetter__'', ''__lookupSetter__'', ''isPrototypeOf'',
      ''propertyIsEnumerable'', ''toString'', ''valueOf'', ''__proto__'',
      ''toLocaleString'']"

datatype 'a member = Own 'a | Inherited | Undefined

text \<open>\<^verbatim>\<open>FORM_CONFIGS[key]\<close>, for the string \<open>key\<close> that the form id converts to.\<close>

definition FORM_CONFIGS_get :: "(string \<Rightarrow> hook) \<Rightarrow> string \<Rightarrow> form_config member" where
  "FORM_CONFIGS_get hooks key =
     (case map_of (FORM_CONFIGS hooks) key of
        Some cfg \<Rightarrow> Own cfg
      | None \<Rightarrow> (if key \<in> set Object_prototype_keys then Inherited else Undefined))"

text \<open>\<^verbatim>\<open>Array.prototype.join\<close> on an array of strings.\<close>

fun join :: "string \<Rightarrow> string list \<Rightarrow> string" where
  "join sep [] = []"
| "join sep [x] = x"
| "join sep (x # y # r) = x @ sep @ join sep (y # r)"

section \<open>Validation helpers\<close>

definition email_char :: "char \<Rightarrow> bool" where
  "email_char c = (\<not> is_ws c \<and> c \<noteq> CHR ''@'')"

text \<open>
  \<^verbatim>\<open>/^[^\s@]+@[^\s@]+\.[^\s@]+$/\<close>: a non-empty run of characters that are
  neither white space nor \<^verbatim>\<open>@\<close>, one \<^verbatim>\<open>@\<close>, and a second such run that has
  a dot with at least one character on each side.
\<close>

definition emailRegex :: "string \<Rightarrow> bool" where
  "emailRegex s =
     (let a = takeWhile email_char s in
      a \<noteq> [] \<and>
      (case dropWhile email_char s of
         [] \<Rightarrow> False
       | c # d \<Rightarrow> c = CHR ''@'' \<and> list_all email_char d
                   \<and> CHR ''.'' \<in> set (butlast (tl d))))"

definition phone_char :: "char \<Rightarrow> bool" where
  "phone_char c = (is_digit c \<or> is_ws c \<or> c \<in> set ''-+()'')"

text \<open>\<^verbatim>\<open>/^[\d\s\-+()]{7,20}$/\<close>\<close>

definition phoneRegex :: "string \<Rightarrow> bool" where
  "phoneRegex s = (7 \<le> length s \<and> length s \<le> 20 \<and> list_all phone_char s)"

text \<open>
  The two validators.  \<^verbatim>\<open>RegExp.prototype.test\<close> converts its argument to a
  string first.  \<open>None\<close> is the validator's \<^verbatim>\<open>null\<close> (valid).
\<close>

definition validate_email :: "json \<Rightarrow> error + string option" where
  "validate_email v =
     (case ToString v of
        Inl e \<Rightarrow> Inl e
      | Inr s \<Rightarrow> Inr (if emailRegex s then None else Some ''Invalid email format''))"

definition validate_phone :: "json \<Rightarrow> error + string option" where
  "validate_phone v =
     (if \<not> truthy v then Inr None
      else (case ToString v of
              Inl e \<Rightarrow> Inl e
            | Inr s \<Rightarrow> Inr (if phoneRegex s then None else Some ''Invalid phone format'')))"

definition validateField :: "string \<Rightarrow> json \<Rightarrow> error + string option" where
  "validateField field v =
     (if field = ''email'' then validate_email v
      else if field = ''phone'' then validate_phone v
      else if field \<in> set Object_prototype_keys then Inl (Inherited_validator field)
      else Inr None)"

text \<open>
  The test of line 82: \<^verbatim>\<open>!data[field] || (typeof data[field] === 'string' &&
  !data[field].trim())\<close>.
\<close>

definition is_missing :: "json option \<Rightarrow> bool" where
  "is_missing x =
     (\<not> truthy_opt x \<or> (case x of Some (JStr s) \<Rightarrow> trim s = [] | _ \<Rightarrow> False))"

text \<open>
  The loop of \<^verbatim>\<open>validateRequiredFields\<close>, with the array \<^verbatim>\<open>errors\<close> as the
  accumulator; \<^verbatim>\<open>push\<close> appends.
\<close>

fun validate_loop :: "obj \<Rightarrow> string list \<Rightarrow> string list \<Rightarrow> error + string list" where
  "validate_loop data [] errors = Inr errors"
| "validate_loop data (field # rest) errors =
     (if is_missing (map_of data field)
      then validate_loop data rest (errors @ [''Missing required field: '' @ field])
      else (case validateField field (the (map_of data field)) of
              Inl e \<Rightarrow> Inl e
            | Inr None \<Rightarrow> validate_loop data rest errors
            | Inr (Some validationError) \<Rightarrow>
                validate_loop data rest (errors @ [field @ '': '' @ validationError])))"

definition validateRequiredFields :: "obj \<Rightarrow> string list \<Rightarrow> error + string list" where
  "validateRequiredFields data required = validate_loop data required []"

section \<open>Security helpers: honeypot, timestamp, sanitizeData\<close>

text \<open>
  \<^verbatim>\<open>checkHoneypot\<close>.  A truthy \<^verbatim>\<open>_honey\<close> that is not a string has no
  callable \<^verbatim>\<open>trim\<close> (a number, a boolean and an array have none, and an
  object's own \<^verbatim>\<open>trim\<close> entry is a JSON value), so the call throws.
\<close>

definition checkHoneypot :: "obj \<Rightarrow> error + bool" where
  "checkHoneypot data =
     (case map_of data ''_honey'' of
        None \<Rightarrow> Inr True
      | Some h \<Rightarrow>
          (if \<not> truthy h then Inr True
           else (case h of
                   JStr s \<Rightarrow> Inr (\<not> (trim s \<noteq> []))
                 | _ \<Rightarrow> Inl TypeError)))"

text \<open>
  The clock: \<open>date_now\<close> is what \<^verbatim>\<open>Date.now()\<close> returns in
  \<^verbatim>\<open>checkTimestamp\<close> (integer milliseconds), \<open>iso_now\<close> is what
  \<^verbatim>\<open>new Date().toISOString()\<close> returns when the submission is stamped.
\<close>

record env =
  date_now :: int
  iso_now :: string

text \<open>
  \<^verbatim>\<open>checkTimestamp\<close>.  \<^verbatim>\<open>parseInt\<close> converts its argument to a string.
  With \<^verbatim>\<open>NaN\<close> the difference is \<^verbatim>\<open>NaN\<close> and the comparison is false.
  The subtraction and the comparison with 2000 are over the integers here; the
  code's doubles give the same answer, since a time value is an integer below
  \<open>2\<^sup>5\<^sup>3\<close>, \<^verbatim>\<open>parseInt\<close> rounds monotonically, and an operand beyond
  \<open>2\<^sup>5\<^sup>3\<close> puts the difference far from 2000 on the same side.
\<close>

definition checkTimestamp :: "env \<Rightarrow> obj \<Rightarrow> error + bool" where
  "checkTimestamp e data =
     (case map_of data ''_timestamp'' of
        None \<Rightarrow> Inr True
      | Some ts \<Rightarrow>
          (if \<not> truthy ts then Inr True
           else (case ToString ts of
                   Inl err \<Rightarrow> Inl err
                 | Inr str \<Rightarrow>
                     (case parseInt str of
                        None \<Rightarrow> Inr True
                      | Some t \<Rightarrow>
                          (let submissionTime = date_now e - t
                           in if submissionTime < 2000 then Inr False else Inr True)))))"

definition startsWith_underscore :: "string \<Rightarrow> bool" where
  "startsWith_underscore key = (case key of [] \<Rightarrow> False | c # r \<Rightarrow> c = CHR ''_'')"

text \<open>
  \<^verbatim>\<open>sanitizeData\<close>.  \<^verbatim>\<open>Object.entries\<close> lists each key once with the value a
  property read gives (\<open>AList.clearjunk\<close>); \<^verbatim>\<open>sanitized[key] = ...\<close> is
  \<open>AList.update\<close> on the object under construction.  JavaScript lists
  integer-like keys before the others; the order of the entries of an object
  plays no part in the statements below.
\<close>

definition sanitizeData :: "obj \<Rightarrow> obj" where
  "sanitizeData data =
     fold (\<lambda>(key, v) sanitized.
             if startsWith_underscore key then sanitized
             else AList.update key (sanitizeInput v) sanitized)
          (AList.clearjunk data) []"

section \<open>Response helpers\<close>

text \<open>
  The response of the function.  \<open>body\<close> is the object handed to
  \<^verbatim>\<open>JSON.stringify\<close>; the string on the wire is its serialisation.
\<close>

record response =
  statusCode :: nat
  headers :: "(string \<times> string) list"
  body :: json

definition cors_headers :: "(string \<times> string) list" where
  "cors_headers =
     [(''Content-Type'', ''application/json''),
      (''Access-Control-Allow-Origin'', ''*''),
      (''Access-Control-Allow-Headers'', ''Content-Type''),
      (''Access-Control-Allow-Methods'', ''POST, OPTIONS'')]"

definition jsonResponse :: "nat \<Rightarrow> json \<Rightarrow> response" where
  "jsonResponse code b = \<lparr>statusCode = code, headers = cors_headers, body = b\<rparr>"

definition successResponse :: "string \<Rightarrow> response" where
  "successResponse message =
     jsonResponse 200 (JObj [(''success'', JBool True), (''message'', JStr message)])"

definition errorResponse :: "string \<Rightarrow> nat \<Rightarrow> response" where
  "errorResponse err code =
     jsonResponse code (JObj [(''success'', JBool False), (''error'', JStr err)])"

section \<open>The handler\<close>

text \<open>
  An event: its method and the outcome of \<^verbatim>\<open>JSON.parse(event.body)\<close>, where
  \<open>None\<close> is the \<^verbatim>\<open>SyntaxError\<close> of a body that is not JSON.  A run ends with
  a response or with an exception that nothing catches, and leaves a trace: the
  calls of \<^verbatim>\<open>onSuccess\<close> hooks (form, submission passed) and the lines written
  with \<^verbatim>\<open>console.error\<close> (prefix, cause).
\<close>

record event =
  httpMethod :: string
  parsed_body :: "json option"

datatype outcome = Returned response | Threw error

datatype effect = OnSuccess string obj | ConsoleError string string

type_synonym run = "outcome \<times> effect list"

text \<open>
  Lines 214 to 216: the sanitized data, then the two metadata fields written
  over whatever the submission had under those names.
\<close>

definition sanitized_submission :: "env \<Rightarrow> json \<Rightarrow> obj \<Rightarrow> obj" where
  "sanitized_submission e form_id data =
     AList.update ''submitted_at'' (JStr (iso_now e))
       (AList.update ''form_id'' form_id (sanitizeData data))"

text \<open>
  Lines 207 to 229: validation, sanitization, the hook, the success response.
  \<open>form_id\<close> is the value of the request, \<open>key\<close> its string form.  An inherited
  member taken for a form configuration has no \<^verbatim>\<open>requiredFields\<close>, and
  \<^verbatim>\<open>for ... of undefined\<close> throws.
\<close>

definition dispatch :: "env \<Rightarrow> json \<Rightarrow> string \<Rightarrow> form_config member \<Rightarrow> obj \<Rightarrow> run" where
  "dispatch e form_id key formConfig data =
     (case formConfig of
        Own cfg \<Rightarrow>
          (case validateRequiredFields data (requiredFields cfg) of
             Inl err \<Rightarrow> (Threw err, [])
           | Inr validationErrors \<Rightarrow>
               (if length validationErrors > 0
                then (Returned (errorResponse (join ''; '' validationErrors) 400), [])
                else
                  (let sanitizedData = sanitized_submission e form_id data
                   in (case onSuccess cfg of
                         None \<Rightarrow>
                           (Returned (successResponse (key @ '' form submitted successfully'')), [])
                       | Some h \<Rightarrow>
                           (case h sanitizedData of
                              Fulfilled \<Rightarrow>
                                (Returned (successResponse (key @ '' form submitted successfully'')),
                                 [OnSuccess key sanitizedData])
                            | Rejected cause \<Rightarrow>
                                (Returned (errorResponse
                                   ''Submission processing failed. Please try again.'' 500),
                                 [OnSuccess key sanitizedData,
                                  ConsoleError (''['' @ key @ ''] onSuccess handler failed:'')
                                    cause]))))))
      | _ \<Rightarrow> (Threw TypeError, []))"

text \<open>Lines 197 to 205: the two anti-spam checks.\<close>

definition antispam :: "env \<Rightarrow> json \<Rightarrow> string \<Rightarrow> form_config member \<Rightarrow> obj \<Rightarrow> run" where
  "antispam e form_id key formConfig data =
     (case checkHoneypot data of
        Inl err \<Rightarrow> (Threw err, [])
      | Inr False \<Rightarrow> (Returned (successResponse ''Form submitted successfully''), [])
      | Inr True \<Rightarrow>
          (case checkTimestamp e data of
             Inl err \<Rightarrow> (Threw err, [])
           | Inr False \<Rightarrow>
               (Returned (errorResponse ''Please wait a moment before submitting'' 400), [])
           | Inr True \<Rightarrow> dispatch e form_id key formConfig data))"

text \<open>Lines 185 to 195: the form id and its configuration.\<close>

definition resolve :: "(string \<Rightarrow> hook) \<Rightarrow> env \<Rightarrow> obj \<Rightarrow> run" where
  "resolve hooks e data =
     (if \<not> truthy_opt (map_of data ''form_id'')
      then (Returned (errorResponse ''Missing form_id in request body'' 400), [])
      else
        (let form_id = the (map_of data ''form_id'') in
         case ToString form_id of
           Inl err \<Rightarrow> (Threw err, [])
         | Inr key \<Rightarrow>
             (case FORM_CONFIGS_get hooks key of
                Undefined \<Rightarrow>
                  (Returned (errorResponse
                     (''Unknown form_id: '' @ key @ ''. Available forms: ''
                        @ join '', '' (map fst (FORM_CONFIGS hooks))) 400), [])
              | formConfig \<Rightarrow> antispam e form_id key formConfig data)))"

text \<open>
  \<^verbatim>\<open>exports.handler\<close>.  Destructuring \<^verbatim>\<open>form_id\<close> out of \<^verbatim>\<open>null\<close>
  throws; out of a string, a number, a boolean or an array it gives
  \<^verbatim>\<open>undefined\<close>.
\<close>

definition handler :: "(string \<Rightarrow> hook) \<Rightarrow> env \<Rightarrow> event \<Rightarrow> run" where
  "handler hooks e ev =
     (if httpMethod ev = ''OPTIONS'' then (Returned (jsonResponse 200 (JObj [])), [])
      else if httpMethod ev \<noteq> ''POST''
      then (Returned (errorResponse ''Method not allowed. Use POST.'' 405), [])
      else
        (case parsed_body ev of
           None \<Rightarrow> (Returned (errorResponse ''Invalid JSON in request body'' 400), [])
         | Some JNull \<Rightarrow> (Threw TypeError, [])
         | Some (JObj data) \<Rightarrow> resolve hooks e data
         | Some _ \<Rightarrow> (Returned (errorResponse ''Missing form_id in request body'' 400), [])))"

section \<open>Vocabulary of the statements\<close>

text \<open>
  A POST whose body is the object \<open>data\<close>, whose \<^verbatim>\<open>form_id\<close> is the truthy
  value \<open>form_id\<close>, with string form \<open>key\<close>, and \<open>key\<close> names a configured
  form: the submission reaches the anti-spam checks with that form's
  configuration.
\<close>

definition posted_to :: "(string \<Rightarrow> hook) \<Rightarrow> event \<Rightarrow> obj \<Rightarrow> json \<Rightarrow> string \<Rightarrow> bool" where
  "posted_to hooks ev data form_id key =
     (httpMethod ev = ''POST'' \<and> parsed_body ev = Some (JObj data)
      \<and> map_of data ''form_id'' = Some form_id \<and> truthy form_id
      \<and> ToString form_id = Inr key
      \<and> key \<in> set (map fst (FORM_CONFIGS hooks)))"

text \<open>The \<^verbatim>\<open>form_id\<close> that line 186 reads out of a parsed body that is not \<^verbatim>\<open>null\<close>.\<close>

definition form_id_of :: "json \<Rightarrow> json option" where
  "form_id_of d = (case d of JObj data \<Rightarrow> map_of data ''form_id'' | _ \<Rightarrow> None)"

text \<open>\<open>occurs p s\<close>: the string \<open>p\<close> is a contiguous part of \<open>s\<close>.\<close>

fun occurs :: "string \<Rightarrow> string \<Rightarrow> bool" where
  "occurs p [] = (p = [])"
| "occurs p (c # s) = (take (length p) (c # s) = p \<or> occurs p s)"

text \<open>
  \<open>stringable v\<close>: \<^verbatim>\<open>ToString\<close> of \<open>v\<close> does not throw.  Every string, number,
  boolean and \<^verbatim>\<open>null\<close> is stringable, and so is every array or object that
  holds no object with an own \<^verbatim>\<open>toString\<close> entry on the way.
  \<open>convertible data k\<close>: the value of \<open>data\<close> under \<open>k\<close>, if there is one, is
  stringable.
\<close>

definition stringable :: "json \<Rightarrow> bool" where
  "stringable v = (case ToString v of Inl err \<Rightarrow> False | Inr s \<Rightarrow> True)"

definition convertible :: "obj \<Rightarrow> string \<Rightarrow> bool" where
  "convertible data k = (case map_of data k of None \<Rightarrow> True | Some v \<Rightarrow> stringable v)"

fun primitive :: "json \<Rightarrow> bool" where
  "primitive (JArr xs) = False"
| "primitive (JObj kvs) = False"
| "primitive v = True"

text \<open>
  \<open>checkable data field\<close>: the check of a required field runs to its end.  The
  field is not named like a member of \<^verbatim>\<open>Object.prototype\<close>, and where the
  field has a validator (\<^verbatim>\<open>email\<close>, \<^verbatim>\<open>phone\<close>), which applies a regular
  expression to the value, the value converts to a string.
\<close>

definition checkable :: "obj \<Rightarrow> string \<Rightarrow> bool" where
  "checkable data field =
     (field \<notin> set Object_prototype_keys
      \<and> (field \<in> set [''email'', ''phone''] \<longrightarrow> convertible data field))"

text \<open>
  What one required field contributes to the list of errors: the message for a
  missing field, the validator's reason for a present one, or nothing.
\<close>

definition field_errors :: "obj \<Rightarrow> string \<Rightarrow> string list" where
  "field_errors data field =
     (if is_missing (map_of data field) then [''Missing required field: '' @ field]
      else (case validateField field (the (map_of data field)) of
              Inr (Some reason) \<Rightarrow> [field @ '': '' @ reason]
            | _ \<Rightarrow> []))"

text \<open>
  A submission on which no step of the handler throws: the values that the
  code converts to strings (\<^verbatim>\<open>form_id\<close>, \<^verbatim>\<open>_timestamp\<close>, \<^verbatim>\<open>email\<close>,
  \<^verbatim>\<open>phone\<close>) are stringable, \<^verbatim>\<open>_honey\<close> is absent, falsy or a string, and
  the form id does not name a member inherited from \<^verbatim>\<open>Object.prototype\<close>.
  \<open>handled_event\<close> adds the events that never reach a submission and leaves
  out the body \<^verbatim>\<open>null\<close>.
\<close>

definition plain_submission :: "obj \<Rightarrow> bool" where
  "plain_submission data =
     (convertible data ''form_id'' \<and> convertible data ''_timestamp''
      \<and> convertible data ''email'' \<and> convertible data ''phone''
      \<and> (case map_of data ''_honey'' of
            None \<Rightarrow> True
          | Some (JStr s) \<Rightarrow> True
          | Some h \<Rightarrow> \<not> truthy h)
      \<and> (case map_of data ''form_id'' of
            None \<Rightarrow> True
          | Some form_id \<Rightarrow>
              (case ToString form_id of
                 Inl err \<Rightarrow> True
               | Inr key \<Rightarrow> key \<notin> set Object_prototype_keys)))"

definition handled_event :: "event \<Rightarrow> bool" where
  "handled_event ev =
     (httpMethod ev \<noteq> ''POST''
      \<or> (case parsed_body ev of
            None \<Rightarrow> True
          | Some JNull \<Rightarrow> False
          | Some (JObj data) \<Rightarrow> plain_submission data
          | Some d \<Rightarrow> True))"

text \<open>
  The response envelope: the fixed headers, and either the empty object of the
  preflight answer, or a status among 200, 400, 405 and 500 with the body
  \<^verbatim>\<open>{success: true, message}\<close> or \<^verbatim>\<open>{success: false, error}\<close>.
\<close>

fun is_envelope_body :: "json \<Rightarrow> bool" where
  "is_envelope_body (JObj [(s, JBool b), (t, JStr m)]) =
     (s = ''success'' \<and> (if b then t = ''message'' else t = ''error''))"
| "is_envelope_body v = False"

definition reply :: "response \<Rightarrow> bool" where
  "reply r = (headers r = cors_headers \<and> statusCode r \<in> {200, 400, 405, 500}
              \<and> is_envelope_body (body r))"

definition envelope :: "event \<Rightarrow> response \<Rightarrow> bool" where
  "envelope ev r =
     (if httpMethod ev = ''OPTIONS''
      then headers r = cors_headers \<and> statusCode r = 200 \<and> body r = JObj []
      else reply r)"

text \<open>Sample inputs for the concrete instances below.\<close>

definition contact_config :: form_config where
  "contact_config =
     \<lparr>requiredFields = [''name'', ''email'', ''message''],
      optionalFields = [''phone'', ''company''],
      onSuccess = Some (source_hooks ''contact'')\<rparr>"

definition zero_budget_submission :: obj where
  "zero_budget_submission =
     [(''form_id'', JStr ''quote''), (''name'', JBool False),
      (''email'', JStr ''business@example.com''), (''service_type'', JStr ''consulting''),
      (''budget'', JNum (Num False 0 0))]"

definition empty_bot_submission :: obj where
  "empty_bot_submission = [(''form_id'', JStr ''contact''), (''_honey'', JStr ''bot'')]"

definition two_errors_submission :: obj where
  "two_errors_submission =
     [(''form_id'', JStr ''contact''), (''name'', JStr ''A''),
      (''email'', JStr ''bad-email''), (''message'', JStr ''   '')]"

definition numeric_honey_submission :: obj where
  "numeric_honey_submission =
     [(''form_id'', JStr ''contact''), (''name'', JStr ''A''),
      (''email'', JStr ''a@example.com''), (''message'', JStr ''hi''),
      (''_honey'', JNum (Num False 5 1))]"


definition sample_env :: env where
  "sample_env = \<lparr>date_now = 1704067201000, iso_now = ''2024-01-01T00:00:01.000Z''\<rparr>"

definition post :: "obj \<Rightarrow> event" where
  "post data = \<lparr>httpMethod = ''POST'', parsed_body = Some (JObj data)\<rparr>"

definition bot_submission :: obj where
  "bot_submission =
     [(''form_id'', JStr ''contact''), (''name'', JStr ''A''),
      (''email'', JStr ''a@example.com''), (''message'', JStr ''hi''),
      (''_honey'', JStr ''http://spam.example'')]"

definition blank_honey_submission :: obj where
  "blank_honey_submission =
     [(''form_id'', JStr ''newsletter''), (''email'', JStr ''x@y.com''),
      (''_honey'', JStr '' '')]"


definition valid_submission :: obj where
  "valid_submission =
     [(''form_id'', JStr ''contact''), (''name'', JStr ''Jane Smith''),
      (''email'', JStr ''jane@example.com''), (''message'', JStr ''Hello''),
      (''_honey'', JStr [])]"

definition failing_hooks :: "string \<Rightarrow> hook" where
  "failing_hooks form = (\<lambda>data. Rejected ''SMTP login failed for admin:hunter2'')"

definition array_form_id_submission :: obj where
  "array_form_id_submission =
     [(''form_id'', JArr [JStr ''newsletter'']), (''email'', JStr ''x@y.com'')]"

definition bogus_submission :: obj where
  "bogus_submission = [(''form_id'', JStr ''bogus''), (''email'', JStr ''x@y.com'')]"


section \<open>The two regular expressions\<close>

text \<open>
  The definitions of \<open>emailRegex\<close> and \<open>phoneRegex\<close> compute what the patterns
  of lines 57 and 63 match: the email pattern matches a string that splits into
  three non-empty runs of permitted characters around one \<^verbatim>\<open>@\<close> and one dot;
  the phone pattern matches 7 to 20 permitted characters.
\<close>

lemma emailRegex_iff:
  "emailRegex s \<longleftrightarrow>
     (\<exists>a b c. s = a @ ''@'' @ b @ ''.'' @ c \<and> a \<noteq> [] \<and> b \<noteq> [] \<and> c \<noteq> []
        \<and> list_all email_char a \<and> list_all email_char b \<and> list_all email_char c)"
proof
  assume "emailRegex s"
  then obtain d where a: "takeWhile email_char s \<noteq> []"
    and r: "dropWhile email_char s = CHR ''@'' # d"
    and d: "list_all email_char d" and dot: "CHR ''.'' \<in> set (butlast (tl d))"
    by (auto simp: emailRegex_def Let_def split: list.splits)
  from dot have "tl d \<noteq> []" by auto
  then obtain h t where ht: "d = h # t" "t \<noteq> []"
    by (cases d) auto
  from dot ht obtain p q where pq: "butlast t = p @ CHR ''.'' # q"
    by (auto dest: split_list)
  from ht(2) have "t = butlast t @ [last t]" by simp
  with pq have t: "t = p @ CHR ''.'' # q @ [last t]" by simp
  let ?b = "h # p" and ?c = "q @ [last t]"
  have "s = takeWhile email_char s @ dropWhile email_char s" by simp
  also have "\<dots> = takeWhile email_char s @ ''@'' @ ?b @ ''.'' @ ?c"
    using r ht(1) t by simp
  finally have s: "s = takeWhile email_char s @ ''@'' @ ?b @ ''.'' @ ?c" .
  have "list_all email_char (takeWhile email_char s)"
    by (simp add: list_all_iff) (meson set_takeWhileD)
  moreover from d ht(1) have "email_char h" "list_all email_char t" by simp_all
  then have "list_all email_char ?b \<and> list_all email_char ?c"
    by (subst (asm) t) simp
  ultimately show "\<exists>a b c. s = a @ ''@'' @ b @ ''.'' @ c \<and> a \<noteq> [] \<and> b \<noteq> [] \<and> c \<noteq> []
        \<and> list_all email_char a \<and> list_all email_char b \<and> list_all email_char c"
    using s a by blast
next
  assume "\<exists>a b c. s = a @ ''@'' @ b @ ''.'' @ c \<and> a \<noteq> [] \<and> b \<noteq> [] \<and> c \<noteq> []
        \<and> list_all email_char a \<and> list_all email_char b \<and> list_all email_char c"
  then obtain a b c where s: "s = a @ CHR ''@'' # b @ CHR ''.'' # c"
    and ne: "a \<noteq> []" "b \<noteq> []" "c \<noteq> []"
    and all: "list_all email_char a" "list_all email_char b" "list_all email_char c"
    by auto
  have at: "\<not> email_char (CHR ''@'')" by (simp add: email_char_def)
  have dotc: "email_char (CHR ''.'')" by (simp add: email_char_def is_ws_def)
  from all(1) have aa: "\<forall>x \<in> set a. email_char x" by (simp add: list_all_iff)
  have tw: "takeWhile email_char s = a"
    unfolding s using aa at by (simp add: takeWhile_tail)
  have dw: "dropWhile email_char s = CHR ''@'' # b @ CHR ''.'' # c"
    unfolding s using aa at by simp
  have "butlast (tl (b @ CHR ''.'' # c)) = tl b @ CHR ''.'' # butlast c"
    using ne by (cases b) (simp_all add: butlast_append)
  then have "CHR ''.'' \<in> set (butlast (tl (b @ CHR ''.'' # c)))" by simp
  with tw dw ne all dotc show "emailRegex s"
    by (simp add: emailRegex_def Let_def)
qed

lemma phoneRegex_iff:
  "phoneRegex s \<longleftrightarrow> (length s \<in> {7..20} \<and> (\<forall>c \<in> set s. phone_char c))"
  by (auto simp: phoneRegex_def list_all_iff)

section \<open>Properties of sanitizeInput\<close>

lemma replaceAll_absent: "c \<notin> set s \<Longrightarrow> replaceAll c r s = s"
  by (induction s) (auto simp: replaceAll_def)

lemma set_replaceAll:
  "set (replaceAll c r s) \<subseteq> (set s - {c}) \<union> set r"
  by (induction s) (auto simp: replaceAll_def)

lemma sanitizeString_clean:
  "set (sanitizeString s) \<inter> {CHR ''<'', CHR ''>'', CHR 0x22, CHR 0x27} = {}"
proof -
  let ?a = "replaceAll (CHR ''<'') ''&lt;'' s"
  let ?b = "replaceAll (CHR ''>'') ''&gt;'' ?a"
  let ?c = "replaceAll (CHR 0x22) ''&quot;'' ?b"
  let ?d = "replaceAll (CHR 0x27) ''&#x27;'' ?c"
  have a: "CHR ''<'' \<notin> set ?a"
    using set_replaceAll [of "CHR ''<''" "''&lt;''" s] by auto
  have b: "CHR ''<'' \<notin> set ?b" "CHR ''>'' \<notin> set ?b"
    using a set_replaceAll [of "CHR ''>''" "''&gt;''" ?a] by auto
  have c: "CHR ''<'' \<notin> set ?c" "CHR ''>'' \<notin> set ?c" "CHR 0x22 \<notin> set ?c"
    using b set_replaceAll [of "CHR 0x22" "''&quot;''" ?b] by auto
  have d: "CHR ''<'' \<notin> set ?d" "CHR ''>'' \<notin> set ?d" "CHR 0x22 \<notin> set ?d"
      "CHR 0x27 \<notin> set ?d"
    using c set_replaceAll [of "CHR 0x27" "''&#x27;''" ?c] by auto
  show ?thesis
    using d by (simp add: sanitizeString_def)
qed

lemma sanitizeString_fixed:
  assumes "set s \<inter> {CHR ''<'', CHR ''>'', CHR 0x22, CHR 0x27} = {}"
  shows "sanitizeString s = s"
  using assms by (simp add: sanitizeString_def replaceAll_absent)

lemma sanitizeString_idem: "sanitizeString (sanitizeString s) = sanitizeString s"
  by (rule sanitizeString_fixed) (rule sanitizeString_clean)

text \<open>
  C7.  String sanitization is idempotent: sanitizing a value that is already
  sanitized returns it unchanged, for every JSON value.  In particular
  \<^verbatim>\<open><script>\<close> becomes \<^verbatim>\<open>&lt;script&gt;\<close>, and a second pass leaves
  that string as it is (no \<^verbatim>\<open>&amp;lt;\<close> appears: the ampersand is not one of
  the escaped characters).
\<close>

theorem sanitizeInput_idempotent:
  "sanitizeInput (sanitizeInput v) = sanitizeInput v
   \<and> sanitizeInput (JStr ''<script>'') = JStr ''&lt;script&gt;''
   \<and> sanitizeInput (sanitizeInput (JStr ''<script>'')) = JStr ''&lt;script&gt;''"
proof -
  have "sanitizeInput (sanitizeInput v) = sanitizeInput v"
    by (cases v) (simp_all add: sanitizeString_idem)
  moreover have "sanitizeInput (JStr ''<script>'') = JStr ''&lt;script&gt;''"
    by (simp add: sanitizeString_def replaceAll_def)
  moreover have "sanitizeInput (JStr ''&lt;script&gt;'') = JStr ''&lt;script&gt;''"
    by (simp add: sanitizeString_def replaceAll_def)
  ultimately show ?thesis by simp
qed

section \<open>Reaching the anti-spam checks\<close>

lemma trim_Nil [simp]: "trim [] = []"
  by (simp add: trim_def)

lemma FORM_CONFIGS_get_Own:
  assumes "key \<in> set (map fst (FORM_CONFIGS hooks))"
  shows "\<exists>cfg. map_of (FORM_CONFIGS hooks) key = Some cfg
               \<and> FORM_CONFIGS_get hooks key = Own cfg"
proof -
  from assms obtain cfg where "map_of (FORM_CONFIGS hooks) key = Some cfg"
    by (metis map_of_eq_None_iff not_Some_eq set_map)
  then show ?thesis by (simp add: FORM_CONFIGS_get_def)
qed

lemma handler_posted:
  assumes "posted_to hooks ev data form_id key"
  shows "handler hooks e ev = antispam e form_id key (FORM_CONFIGS_get hooks key) data"
proof -
  from assms have "key \<in> set (map fst (FORM_CONFIGS hooks))"
    by (simp add: posted_to_def)
  from FORM_CONFIGS_get_Own [OF this] obtain cfg
    where "FORM_CONFIGS_get hooks key = Own cfg" by blast
  with assms show ?thesis
    by (simp add: posted_to_def handler_def resolve_def)
qed

section \<open>The honeypot\<close>

lemma checkHoneypot_filled:
  assumes "map_of data ''_honey'' = Some (JStr s)" and "trim s \<noteq> []"
  shows "checkHoneypot data = Inr False"
proof -
  from assms(2) have "s \<noteq> []" by auto
  with assms show ?thesis by (simp add: checkHoneypot_def)
qed

text \<open>
  C2, as stated, fails: \<^verbatim>\<open>checkHoneypot\<close> trims the field before it compares
  it with the empty string, so a \<^verbatim>\<open>_honey\<close> of one space is not empty and
  still passes.  The newsletter form's hook is then called.
\<close>

theorem honeypot_blank_counterexample:
  "handler source_hooks sample_env (post blank_honey_submission)
   = (Returned (successResponse ''newsletter form submitted successfully''),
      [OnSuccess ''newsletter''
         [(''form_id'', JStr ''newsletter''), (''email'', JStr ''x@y.com''),
          (''submitted_at'', JStr ''2024-01-01T00:00:01.000Z'')]])"
  by code_simp

text \<open>
  C2, amended.  For every POST submission to a configured form whose
  \<^verbatim>\<open>_honey\<close> field is a string that is not empty after trimming white space,
  the handler returns the 200 response with the default success message, and
  the trace is empty: no \<^verbatim>\<open>onSuccess\<close> hook is called.
\<close>

theorem honeypot_silent_success:
  assumes "posted_to hooks ev data form_id key"
    and "map_of data ''_honey'' = Some (JStr s)"
    and "trim s \<noteq> []"
  shows "handler hooks e ev
         = (Returned (successResponse ''Form submitted successfully''), [])"
  using assms(2,3)
  by (simp add: handler_posted [OF assms(1)] antispam_def checkHoneypot_filled)

theorem honeypot_silent_success_witness:
  "posted_to source_hooks (post bot_submission) bot_submission (JStr ''contact'') ''contact''
   \<and> map_of bot_submission ''_honey'' = Some (JStr ''http://spam.example'')
   \<and> trim ''http://spam.example'' \<noteq> []
   \<and> handler source_hooks sample_env (post bot_submission)
       = (Returned (successResponse ''Form submitted successfully''), [])"
proof -
  have h1: "posted_to source_hooks (post bot_submission) bot_submission
              (JStr ''contact'') ''contact''"
    by code_simp
  have h2: "map_of bot_submission ''_honey'' = Some (JStr ''http://spam.example'')"
    by code_simp
  have h3: "trim ''http://spam.example'' \<noteq> []"
    by code_simp
  from honeypot_silent_success [OF h1 h2 h3, of sample_env] h1 h2 h3
  show ?thesis by simp
qed

section \<open>The timestamp\<close>









section \<open>The success action\<close>

lemma config_hook:
  "map_of (FORM_CONFIGS hooks) key = Some cfg \<Longrightarrow> onSuccess cfg = Some (hooks key)"
  by (auto simp: FORM_CONFIGS_def split: if_splits)

lemma dispatch_trace:
  assumes "OnSuccess k sd \<in> set (snd (dispatch e form_id key (Own cfg) data))"
    and "onSuccess cfg = Some h"
  shows "k = key \<and> sd = sanitized_submission e form_id data
    \<and> dispatch e form_id key (Own cfg) data =
        (case h sd of
           Fulfilled \<Rightarrow>
             (Returned (successResponse (key @ '' form submitted successfully'')),
              [OnSuccess key sd])
         | Rejected cause \<Rightarrow>
             (Returned (errorResponse ''Submission processing failed. Please try again.'' 500),
              [OnSuccess key sd,
               ConsoleError (''['' @ key @ ''] onSuccess handler failed:'') cause]))"
  using assms
  by (auto simp: dispatch_def Let_def split: sum.splits if_splits action_result.splits)

lemma antispam_trace:
  assumes "OnSuccess k sd \<in> set (snd (antispam e form_id key formConfig data))"
  shows "antispam e form_id key formConfig data = dispatch e form_id key formConfig data"
  using assms
  by (auto simp: antispam_def split: sum.splits bool.splits)

lemma handler_trace:
  assumes "OnSuccess k sd \<in> set (snd (handler hooks e ev))"
  shows "\<exists>data form_id. posted_to hooks ev data form_id k
      \<and> sd = sanitized_submission e form_id data
      \<and> handler hooks e ev =
        (case hooks k sd of
           Fulfilled \<Rightarrow>
             (Returned (successResponse (k @ '' form submitted successfully'')),
              [OnSuccess k sd])
         | Rejected cause \<Rightarrow>
             (Returned (errorResponse ''Submission processing failed. Please try again.'' 500),
              [OnSuccess k sd,
               ConsoleError (''['' @ k @ ''] onSuccess handler failed:'') cause]))"
proof -
  from assms have post: "httpMethod ev = ''POST''"
    by (auto simp: handler_def split: if_splits)
  from assms post obtain data where body: "parsed_body ev = Some (JObj data)"
    and r: "OnSuccess k sd \<in> set (snd (resolve hooks e data))"
    by (auto simp: handler_def split: option.splits json.splits)
  from r have t: "truthy_opt (map_of data ''form_id'')"
    by (auto simp: resolve_def split: if_splits)
  then obtain form_id where f: "map_of data ''form_id'' = Some form_id" "truthy form_id"
    by (cases "map_of data ''form_id''") auto
  from r t f obtain key where key: "ToString form_id = Inr key"
    by (cases "ToString form_id") (auto simp: resolve_def)
  from r t f key have a: "OnSuccess k sd \<in> set (snd (antispam e form_id key (FORM_CONFIGS_get hooks key) data))"
     and nu: "FORM_CONFIGS_get hooks key \<noteq> Undefined"
    by (auto simp: resolve_def split: member.splits)
  have res: "resolve hooks e data = antispam e form_id key (FORM_CONFIGS_get hooks key) data"
    using t f key nu by (auto simp: resolve_def split: member.splits)
  from antispam_trace [OF a] a
  have d: "OnSuccess k sd \<in> set (snd (dispatch e form_id key (FORM_CONFIGS_get hooks key) data))"
    and ad: "antispam e form_id key (FORM_CONFIGS_get hooks key) data = dispatch e form_id key (FORM_CONFIGS_get hooks key) data"
    by simp_all
  from d obtain cfg where own: "FORM_CONFIGS_get hooks key = Own cfg"
    by (cases "FORM_CONFIGS_get hooks key") (auto simp: dispatch_def)
  then have m: "map_of (FORM_CONFIGS hooks) key = Some cfg"
    by (auto simp: FORM_CONFIGS_get_def split: option.splits if_splits)
  from dispatch_trace [OF d [unfolded own] config_hook [OF m]]
  have kk: "k = key" and sd: "sd = sanitized_submission e form_id data"
    and dd: "dispatch e form_id key (Own cfg) data =
        (case hooks key sd of
           Fulfilled \<Rightarrow>
             (Returned (successResponse (key @ '' form submitted successfully'')),
              [OnSuccess key sd])
         | Rejected cause \<Rightarrow>
             (Returned (errorResponse ''Submission processing failed. Please try again.'' 500),
              [OnSuccess key sd,
               ConsoleError (''['' @ key @ ''] onSuccess handler failed:'') cause]))"
    by simp_all
  have "key \<in> set (map fst (FORM_CONFIGS hooks))"
    using m by (metis map_of_SomeD fst_conv image_eqI set_map)
  then have p: "posted_to hooks ev data form_id k"
    using post body f key kk by (simp add: posted_to_def)
  have "handler hooks e ev = dispatch e form_id key (Own cfg) data"
    using post body res ad own by (simp add: handler_def)
  with dd kk sd p show ?thesis by auto
qed

text \<open>
  C8.  The submission reaches the success action (the trace holds the call of
  the form's hook with the submission \<open>sanitized\<close>) and the hook fails with
  \<open>cause\<close>.  Then the handler returns status 500 with the fixed message, the
  same response for every cause; the cause goes to \<^verbatim>\<open>console.error\<close> and
  nowhere else.
\<close>

theorem onSuccess_failure_generic:
  assumes "OnSuccess key sanitized \<in> set (snd (handler hooks e ev))"
    and "hooks key sanitized = Rejected cause"
  shows "handler hooks e ev =
     (Returned (errorResponse ''Submission processing failed. Please try again.'' 500),
      [OnSuccess key sanitized,
       ConsoleError (''['' @ key @ ''] onSuccess handler failed:'') cause])"
  using handler_trace [OF assms(1)] assms(2) by auto

theorem onSuccess_failure_generic_witness:
  "OnSuccess ''contact'' (sanitized_submission sample_env (JStr ''contact'') valid_submission)
     \<in> set (snd (handler failing_hooks sample_env (post valid_submission)))
   \<and> failing_hooks ''contact''
         (sanitized_submission sample_env (JStr ''contact'') valid_submission)
       = Rejected ''SMTP login failed for admin:hunter2''
   \<and> handler failing_hooks sample_env (post valid_submission) =
       (Returned (errorResponse ''Submission processing failed. Please try again.'' 500),
        [OnSuccess ''contact''
           (sanitized_submission sample_env (JStr ''contact'') valid_submission),
         ConsoleError ''[contact] onSuccess handler failed:''
           ''SMTP login failed for admin:hunter2''])"
proof -
  have h1: "OnSuccess ''contact''
              (sanitized_submission sample_env (JStr ''contact'') valid_submission)
            \<in> set (snd (handler failing_hooks sample_env (post valid_submission)))"
    by code_simp
  have h2: "failing_hooks ''contact''
              (sanitized_submission sample_env (JStr ''contact'') valid_submission)
            = Rejected ''SMTP login failed for admin:hunter2''"
    by (simp add: failing_hooks_def)
  from onSuccess_failure_generic [OF h1 h2] h1 h2
  show ?thesis by simp
qed

section \<open>What the success action receives\<close>

lemma sanitize_fold_keys:
  assumes "k \<in> fst ` set (fold (\<lambda>(key, v) sanitized.
             if startsWith_underscore key then sanitized
             else AList.update key (sanitizeInput v) sanitized) xs acc)"
  shows "k \<in> fst ` set acc \<or> (k \<in> fst ` set xs \<and> \<not> startsWith_underscore k)"
  using assms
proof (induction xs arbitrary: acc)
  case Nil
  then show ?case by simp
next
  case (Cons x xs)
  obtain key v where x: "x = (key, v)" by (cases x)
  let ?acc = "if startsWith_underscore key then acc
              else AList.update key (sanitizeInput v) acc"
  from Cons.prems have "k \<in> fst ` set (fold (\<lambda>(key, v) sanitized.
             if startsWith_underscore key then sanitized
             else AList.update key (sanitizeInput v) sanitized) xs ?acc)"
    by (simp add: x)
  from Cons.IH [OF this]
  have "k \<in> fst ` set ?acc \<or> (k \<in> fst ` set xs \<and> \<not> startsWith_underscore k)" .
  moreover have "k \<in> fst ` set acc \<or> (k = key \<and> \<not> startsWith_underscore k)"
    if "k \<in> fst ` set ?acc"
    using that by (cases "startsWith_underscore key") (auto simp: dom_update)
  ultimately show ?case
    by (auto simp: x)
qed

lemma sanitizeData_keys:
  "key \<in> fst ` set (sanitizeData data) \<Longrightarrow> \<not> startsWith_underscore key"
  using sanitize_fold_keys [of key "AList.clearjunk data" "[]"]
  by (auto simp: sanitizeData_def)

lemma sanitized_submission_keys:
  assumes "key \<in> fst ` set (sanitized_submission e form_id data)"
  shows "\<not> startsWith_underscore key"
proof -
  from assms have "key = ''submitted_at'' \<or> key = ''form_id''
      \<or> key \<in> fst ` set (sanitizeData data)"
    by (auto simp: sanitized_submission_def dom_update)
  then show ?thesis
    using sanitizeData_keys [of key data] by (auto simp: startsWith_underscore_def)
qed

lemma sanitized_submission_form_id:
  "map_of (sanitized_submission e form_id data) ''form_id'' = Some form_id"
  by (simp add: sanitized_submission_def update_conv)

text \<open>
  What holds of every submission handed to a hook: none of its keys starts with
  an underscore, its \<^verbatim>\<open>form_id\<close> is the \<^verbatim>\<open>form_id\<close> value of the request,
  and the string form of that value names the form whose hook is called.
\<close>

lemma success_action_submission:
  assumes "OnSuccess key sanitized \<in> set (snd (handler hooks e ev))"
  shows "(\<forall>k \<in> fst ` set sanitized. \<not> startsWith_underscore k)
    \<and> (\<exists>form_id. map_of sanitized ''form_id'' = Some form_id
          \<and> ToString form_id = Inr key
          \<and> (\<forall>s. form_id = JStr s \<longrightarrow> s = key))"
proof -
  from handler_trace [OF assms] obtain data form_id
    where p: "posted_to hooks ev data form_id key"
      and sd: "sanitized = sanitized_submission e form_id data"
    by blast
  from p have "ToString form_id = Inr key"
    by (simp add: posted_to_def)
  then show ?thesis
    using sanitized_submission_keys [of _ e form_id data]
      sanitized_submission_form_id [of e form_id data]
    unfolding sd by auto
qed

text \<open>
  C9 fails on the code when \<^verbatim>\<open>form_id\<close> is an array: the property key of
  \<^verbatim>\<open>FORM_CONFIGS[form_id]\<close> is the array's string form, so
  \<^verbatim>\<open>["newsletter"]\<close> resolves the newsletter form, and line 215 stores the
  array itself.  The hook receives a \<^verbatim>\<open>form_id\<close> that is not the identifier
  \<^verbatim>\<open>"newsletter"\<close>.
\<close>

theorem form_id_array_reaches_hook:
  "handler source_hooks sample_env (post array_form_id_submission)
   = (Returned (successResponse ''newsletter form submitted successfully''),
      [OnSuccess ''newsletter''
         [(''form_id'', JArr [JStr ''newsletter'']), (''email'', JStr ''x@y.com''),
          (''submitted_at'', JStr ''2024-01-01T00:00:01.000Z'')]])"
  by code_simp

section \<open>Resolving the form\<close>

lemma occurs_append: "occurs p t \<Longrightarrow> occurs p (a @ t)"
  by (induction a) auto

lemma occurs_listing:
  "k \<in> set [''contact'', ''newsletter'', ''quote'', ''callback'']
   \<Longrightarrow> occurs k ''. Available forms: contact, newsletter, quote, callback''"
  by (auto; code_simp)

lemma handler_missing_form_id:
  assumes "httpMethod ev = ''POST''" and "parsed_body ev = Some d" and "d \<noteq> JNull"
    and "\<not> truthy_opt (form_id_of d)"
  shows "handler hooks e ev
         = (Returned (errorResponse ''Missing form_id in request body'' 400), [])"
  using assms
  by (cases d) (auto simp: handler_def resolve_def form_id_of_def)

lemma handler_unknown_form_id:
  assumes "httpMethod ev = ''POST''" and "parsed_body ev = Some d"
    and "form_id_of d = Some form_id" and "truthy form_id"
    and "ToString form_id = Inr key"
    and "key \<notin> set (map fst (FORM_CONFIGS hooks))"
    and "key \<notin> set Object_prototype_keys"
  shows "handler hooks e ev
         = (Returned (errorResponse
              (''Unknown form_id: '' @ key
                 @ ''. Available forms: contact, newsletter, quote, callback'') 400), [])"
proof -
  from assms(3) obtain data where d: "d = JObj data" "map_of data ''form_id'' = Some form_id"
    by (cases d) (auto simp: form_id_of_def)
  from assms(6) have "map_of (FORM_CONFIGS hooks) key = None"
    by (simp add: map_of_eq_None_iff)
  with assms(7) have u: "FORM_CONFIGS_get hooks key = Undefined"
    by (simp add: FORM_CONFIGS_get_def)
  have j: "join '', '' (map fst (FORM_CONFIGS hooks)) = ''contact, newsletter, quote, callback''"
    by (simp add: FORM_CONFIGS_def)
  show ?thesis
    using assms(1,2,4,5) d u j by (simp add: handler_def resolve_def)
qed

text \<open>
  C5, as stated, fails for a missing identifier: the message of line 188 lists
  no form.
\<close>

theorem missing_form_id_counterexample:
  "handler source_hooks sample_env (post [(''email'', JStr ''x@y.com'')])
   = (Returned (errorResponse ''Missing form_id in request body'' 400), [])
   \<and> \<not> occurs ''contact'' ''Missing form_id in request body''"
  by code_simp

text \<open>
  C5, amended.  For every POST whose body parses to a value other than
  \<^verbatim>\<open>null\<close>: when the form identifier is missing (or falsy) the handler
  returns status 400 with the message \<^verbatim>\<open>Missing form_id in request body\<close>;
  when the identifier's string form \<open>key\<close> is neither a configured form nor the
  name of a member inherited from \<^verbatim>\<open>Object.prototype\<close>, the handler returns
  status 400 with a message in which every configured identifier occurs.
\<close>

theorem form_resolve_errors:
  assumes "httpMethod ev = ''POST''" and "parsed_body ev = Some d" and "d \<noteq> JNull"
  shows "(\<not> truthy_opt (form_id_of d) \<longrightarrow>
            handler hooks e ev
            = (Returned (errorResponse ''Missing form_id in request body'' 400), []))
    \<and> (\<forall>form_id key.
          form_id_of d = Some form_id \<and> truthy form_id \<and> ToString form_id = Inr key
          \<and> key \<notin> set (map fst (FORM_CONFIGS hooks))
          \<and> key \<notin> set Object_prototype_keys \<longrightarrow>
            handler hooks e ev
            = (Returned (errorResponse
                 (''Unknown form_id: '' @ key
                    @ ''. Available forms: contact, newsletter, quote, callback'') 400), [])
            \<and> (\<forall>k \<in> set (map fst (FORM_CONFIGS hooks)).
                  occurs k (''Unknown form_id: '' @ key
                    @ ''. Available forms: contact, newsletter, quote, callback'')))"
proof -
  have ids: "set (map fst (FORM_CONFIGS hooks))
             = set [''contact'', ''newsletter'', ''quote'', ''callback'']"
    by (simp add: FORM_CONFIGS_def)
  have listed: "occurs k (''Unknown form_id: '' @ key
                    @ ''. Available forms: contact, newsletter, quote, callback'')"
    if "k \<in> set (map fst (FORM_CONFIGS hooks))" for k key
    using occurs_append [OF occurs_listing, of k "''Unknown form_id: '' @ key"] that
    unfolding ids by simp
  show ?thesis
    using handler_missing_form_id [OF assms] handler_unknown_form_id [OF assms(1,2)] listed
    by blast
qed

theorem form_resolve_errors_witness:
  "httpMethod (post bogus_submission) = ''POST''
   \<and> parsed_body (post bogus_submission) = Some (JObj bogus_submission)
   \<and> JObj bogus_submission \<noteq> JNull
   \<and> form_id_of (JObj bogus_submission) = Some (JStr ''bogus'')
   \<and> truthy (JStr ''bogus'')
   \<and> ToString (JStr ''bogus'') = Inr ''bogus''
   \<and> ''bogus'' \<notin> set (map fst (FORM_CONFIGS source_hooks))
   \<and> ''bogus'' \<notin> set Object_prototype_keys
   \<and> handler source_hooks sample_env (post bogus_submission)
       = (Returned (errorResponse
            ''Unknown form_id: bogus. Available forms: contact, newsletter, quote, callback''
            400), [])
   \<and> occurs ''quote''
        ''Unknown form_id: bogus. Available forms: contact, newsletter, quote, callback''
   \<and> httpMethod (post []) = ''POST''
   \<and> parsed_body (post []) = Some (JObj [])
   \<and> JObj [] \<noteq> JNull
   \<and> \<not> truthy_opt (form_id_of (JObj []))
   \<and> handler source_hooks sample_env (post [])
       = (Returned (errorResponse ''Missing form_id in request body'' 400), [])"
proof -
  have h1: "httpMethod (post bogus_submission) = ''POST''"
    by (simp add: post_def)
  have h2: "parsed_body (post bogus_submission) = Some (JObj bogus_submission)"
    by (simp add: post_def)
  have h3: "JObj bogus_submission \<noteq> JNull"
    by simp
  have h4: "form_id_of (JObj bogus_submission) = Some (JStr ''bogus'')"
    by code_simp
  have h5: "truthy (JStr ''bogus'')" "ToString (JStr ''bogus'') = Inr ''bogus''"
    by simp_all
  have h6: "''bogus'' \<notin> set (map fst (FORM_CONFIGS source_hooks))"
    by (simp add: FORM_CONFIGS_def)
  have h7: "''bogus'' \<notin> set Object_prototype_keys"
    by (simp add: Object_prototype_keys_def)
  have q: "''quote'' \<in> set (map fst (FORM_CONFIGS source_hooks))"
    by (simp add: FORM_CONFIGS_def)
  have g1: "httpMethod (post []) = ''POST''" "parsed_body (post []) = Some (JObj [])"
    by (simp_all add: post_def)
  have g2: "JObj [] \<noteq> JNull"
    by simp
  have g3: "\<not> truthy_opt (form_id_of (JObj []))"
    by (simp add: form_id_of_def)
  from form_resolve_errors [OF h1 h2 h3, of source_hooks sample_env] h4 h5 h6 h7 q
  have a: "handler source_hooks sample_env (post bogus_submission)
       = (Returned (errorResponse
            (''Unknown form_id: '' @ ''bogus''
               @ ''. Available forms: contact, newsletter, quote, callback'') 400), [])
     \<and> occurs ''quote'' (''Unknown form_id: '' @ ''bogus''
               @ ''. Available forms: contact, newsletter, quote, callback'')"
    by blast
  from form_resolve_errors [OF g1 g2, of source_hooks sample_env] g3
  have b: "handler source_hooks sample_env (post [])
       = (Returned (errorResponse ''Missing form_id in request body'' 400), [])"
    by blast
  from a b h1 h2 h3 h4 h5 h6 h7 g1 g2 g3 show ?thesis
    by simp
qed

section \<open>Validation of the required fields\<close>

lemma validateField_total:
  assumes "checkable data field" and "map_of data field = Some v"
  shows "\<exists>r. validateField field v = Inr r"
  using assms
  by (auto simp: validateField_def validate_email_def validate_phone_def stringable_def
      checkable_def convertible_def split: sum.splits)

lemma validateField_Some:
  assumes "validateField field v = Inr (Some reason)"
  shows "(field = ''email'' \<and> reason = ''Invalid email format'')
       \<or> (field = ''phone'' \<and> reason = ''Invalid phone format'')"
  using assms
  by (auto simp: validateField_def validate_email_def validate_phone_def
      split: sum.splits if_splits)

lemma not_missing_Some: "\<not> is_missing x \<Longrightarrow> \<exists>v. x = Some v"
  by (cases x) (auto simp: is_missing_def)

lemma validate_loop_collects:
  assumes "\<forall>f \<in> set fs. checkable data f"
  shows "validate_loop data fs acc = Inr (acc @ concat (map (field_errors data) fs))"
  using assms
proof (induction fs arbitrary: acc)
  case Nil
  then show ?case by simp
next
  case (Cons f fs)
  from Cons.prems have rest: "\<forall>g \<in> set fs. checkable data g" and f: "checkable data f"
    by simp_all
  show ?case
  proof (cases "is_missing (map_of data f)")
    case True
    then show ?thesis
      using Cons.IH [OF rest] by (simp add: field_errors_def)
  next
    case False
    from not_missing_Some [OF False] obtain v where v: "map_of data f = Some v" by blast
    from validateField_total [OF f v] obtain r where r: "validateField f v = Inr r" by blast
    show ?thesis
      using False v r Cons.IH [OF rest] by (cases r) (simp_all add: field_errors_def)
  qed
qed

lemma validateRequiredFields_collects:
  assumes "\<forall>f \<in> set fs. checkable data f"
  shows "validateRequiredFields data fs = Inr (concat (map (field_errors data) fs))"
  using validate_loop_collects [OF assms, of "[]"] by (simp add: validateRequiredFields_def)

lemma missing_message_origin:
  assumes "(''Missing required field: '' @ field) \<in> set (field_errors data g)"
  shows "g = field \<and> is_missing (map_of data field)"
proof (cases "is_missing (map_of data g)")
  case True
  with assms show ?thesis by (simp add: field_errors_def)
next
  case False
  show ?thesis
  proof (cases "validateField g (the (map_of data g))")
    case (Inl err)
    with False assms show ?thesis by (simp add: field_errors_def)
  next
    case (Inr r)
    show ?thesis
    proof (cases r)
      case None
      with False Inr assms show ?thesis by (simp add: field_errors_def)
    next
      case (Some reason)
      with False Inr assms
      have m: "''Missing required field: '' @ field = g @ '': '' @ reason"
        by (simp add: field_errors_def)
      from validateField_Some [OF Inr [unfolded Some]] m show ?thesis by auto
    qed
  qed
qed

lemma handler_validation_failed:
  assumes "posted_to hooks ev data form_id key"
    and "map_of (FORM_CONFIGS hooks) key = Some cfg"
    and "checkHoneypot data = Inr True" and "checkTimestamp e data = Inr True"
    and "validateRequiredFields data (requiredFields cfg) = Inr errs" and "errs \<noteq> []"
  shows "handler hooks e ev = (Returned (errorResponse (join ''; '' errs) 400), [])"
  using assms(2-6)
  by (simp add: handler_posted [OF assms(1)] antispam_def dispatch_def FORM_CONFIGS_get_def)

text \<open>
  C4, as stated, fails: line 82 starts with \<^verbatim>\<open>!data[field]\<close>, so a field
  that holds the number 0 or the boolean \<^verbatim>\<open>false\<close> is reported missing.
  Here \<^verbatim>\<open>name\<close> is \<^verbatim>\<open>false\<close> and \<^verbatim>\<open>budget\<close> is 0 in a quote request.
\<close>

theorem falsy_value_counterexample:
  "map_of zero_budget_submission ''name'' = Some (JBool False)
   \<and> map_of zero_budget_submission ''budget'' = Some (JNum (Num False 0 0))
   \<and> validateRequiredFields zero_budget_submission
        [''name'', ''email'', ''service_type'', ''budget'']
      = Inr [''Missing required field: name'', ''Missing required field: budget'']"
  by code_simp

text \<open>
  C4, amended.  For every submission and every required field (of a checkable
  list of fields), validation reports \<^verbatim>\<open>Missing required field: <name>\<close> for
  the field if and only if its value is falsy (absent, \<^verbatim>\<open>null\<close>, \<^verbatim>\<open>false\<close>,
  zero or the empty string) or is a string that is empty after trimming white
  space.  Any other value is passed to the field validators: a reason they give
  is reported as \<^verbatim>\<open><name>: <reason>\<close>.
\<close>

theorem missing_field_report:
  assumes "\<forall>f \<in> set fs. checkable data f" and "field \<in> set fs"
  shows "\<exists>errs. validateRequiredFields data fs = Inr errs
     \<and> ((''Missing required field: '' @ field) \<in> set errs
          \<longleftrightarrow> (\<not> truthy_opt (map_of data field)
               \<or> (\<exists>s. map_of data field = Some (JStr s) \<and> trim s = [])))
     \<and> (\<forall>v reason. map_of data field = Some v \<and> truthy v
            \<and> (\<forall>s. v = JStr s \<longrightarrow> trim s \<noteq> [])
            \<and> validateField field v = Inr (Some reason)
          \<longrightarrow> (field @ '': '' @ reason) \<in> set errs)"
proof -
  let ?errs = "concat (map (field_errors data) fs)"
  have m: "is_missing (map_of data field)
           \<longleftrightarrow> (\<not> truthy_opt (map_of data field)
                \<or> (\<exists>s. map_of data field = Some (JStr s) \<and> trim s = []))"
    by (auto simp: is_missing_def split: option.splits json.splits)
  have a: "(''Missing required field: '' @ field) \<in> set ?errs
           \<longleftrightarrow> is_missing (map_of data field)"
  proof
    assume "(''Missing required field: '' @ field) \<in> set ?errs"
    then obtain g where "(''Missing required field: '' @ field) \<in> set (field_errors data g)"
      by auto
    from missing_message_origin [OF this] show "is_missing (map_of data field)" ..
  next
    assume "is_missing (map_of data field)"
    then have "(''Missing required field: '' @ field) \<in> set (field_errors data field)"
      by (simp add: field_errors_def)
    with assms(2) show "(''Missing required field: '' @ field) \<in> set ?errs"
      by auto
  qed
  have b: "(field @ '': '' @ reason) \<in> set ?errs"
    if "map_of data field = Some v" "truthy v" "\<forall>s. v = JStr s \<longrightarrow> trim s \<noteq> []"
      "validateField field v = Inr (Some reason)" for v reason
  proof -
    from that(1-3) have "\<not> is_missing (map_of data field)"
      by (auto simp: is_missing_def split: json.splits)
    with that(1,4) have "(field @ '': '' @ reason) \<in> set (field_errors data field)"
      by (simp add: field_errors_def)
    with assms(2) show ?thesis by auto
  qed
  show ?thesis
    using validateRequiredFields_collects [OF assms(1)] a b unfolding m by blast
qed

theorem missing_field_report_witness:
  "checkable zero_budget_submission ''name'' \<and> checkable zero_budget_submission ''email''
   \<and> checkable zero_budget_submission ''service_type''
   \<and> checkable zero_budget_submission ''budget''
   \<and> ''budget'' \<in> set [''name'', ''email'', ''service_type'', ''budget'']
   \<and> \<not> truthy_opt (map_of zero_budget_submission ''budget'')
   \<and> (\<exists>errs. validateRequiredFields zero_budget_submission
                 [''name'', ''email'', ''service_type'', ''budget''] = Inr errs
              \<and> ''Missing required field: budget'' \<in> set errs)
   \<and> checkable two_errors_submission ''name'' \<and> checkable two_errors_submission ''email''
   \<and> checkable two_errors_submission ''message''
   \<and> ''email'' \<in> set [''name'', ''email'', ''message'']
   \<and> map_of two_errors_submission ''email'' = Some (JStr ''bad-email'')
   \<and> truthy (JStr ''bad-email'') \<and> trim ''bad-email'' \<noteq> []
   \<and> validateField ''email'' (JStr ''bad-email'') = Inr (Some ''Invalid email format'')
   \<and> (\<exists>errs. validateRequiredFields two_errors_submission
                 [''name'', ''email'', ''message''] = Inr errs
              \<and> ''email: Invalid email format'' \<in> set errs
              \<and> ''Missing required field: email'' \<notin> set errs)"
proof -
  have c1: "\<forall>f \<in> set [''name'', ''email'', ''service_type'', ''budget''].
              checkable zero_budget_submission f"
    by code_simp
  have m1: "''budget'' \<in> set [''name'', ''email'', ''service_type'', ''budget'']"
    by simp
  have f1: "\<not> truthy_opt (map_of zero_budget_submission ''budget'')"
    by code_simp
  have c2: "\<forall>f \<in> set [''name'', ''email'', ''message'']. checkable two_errors_submission f"
    by code_simp
  have m2: "''email'' \<in> set [''name'', ''email'', ''message'']"
    by simp
  have v2: "map_of two_errors_submission ''email'' = Some (JStr ''bad-email'')"
      "truthy (JStr ''bad-email'')" "trim ''bad-email'' \<noteq> []"
      "validateField ''email'' (JStr ''bad-email'') = Inr (Some ''Invalid email format'')"
    by code_simp+
  have t2: "truthy_opt (map_of two_errors_submission ''email'')"
    using v2 by simp
  from missing_field_report [OF c1 m1] f1
  have a: "\<exists>errs. validateRequiredFields zero_budget_submission
                 [''name'', ''email'', ''service_type'', ''budget''] = Inr errs
              \<and> ''Missing required field: budget'' \<in> set errs"
    by auto
  from missing_field_report [OF c2 m2] obtain errs
    where e: "validateRequiredFields two_errors_submission
                [''name'', ''email'', ''message''] = Inr errs"
      and miss: "(''Missing required field: '' @ ''email'') \<in> set errs
          \<longleftrightarrow> (\<not> truthy_opt (map_of two_errors_submission ''email'')
               \<or> (\<exists>s. map_of two_errors_submission ''email'' = Some (JStr s) \<and> trim s = []))"
      and rep: "\<forall>v reason. map_of two_errors_submission ''email'' = Some v \<and> truthy v
            \<and> (\<forall>s. v = JStr s \<longrightarrow> trim s \<noteq> [])
            \<and> validateField ''email'' v = Inr (Some reason)
          \<longrightarrow> (''email'' @ '': '' @ reason) \<in> set errs"
    by blast
  from rep v2 have "(''email'' @ '': '' @ ''Invalid email format'') \<in> set errs"
    by blast
  moreover from miss t2 v2 have "(''Missing required field: '' @ ''email'') \<notin> set errs"
    by simp
  ultimately have b: "\<exists>errs. validateRequiredFields two_errors_submission
                 [''name'', ''email'', ''message''] = Inr errs
              \<and> ''email: Invalid email format'' \<in> set errs
              \<and> ''Missing required field: email'' \<notin> set errs"
    using e by simp
  from a b c1 c2 m1 m2 f1 v2 show ?thesis
    by simp
qed

text \<open>
  C6, as stated, fails for a submission that an anti-spam check stops before
  validation: three required fields are missing, the honeypot is filled, and
  the handler answers with the silent success.
\<close>

theorem spam_before_validation_counterexample:
  "validateRequiredFields empty_bot_submission [''name'', ''email'', ''message'']
     = Inr [''Missing required field: name'', ''Missing required field: email'',
            ''Missing required field: message'']
   \<and> handler source_hooks sample_env (post empty_bot_submission)
     = (Returned (successResponse ''Form submitted successfully''), [])"
  by code_simp

text \<open>
  C6, amended.  For every submission whose required fields are checkable,
  validation returns the errors of all required fields, each field's
  contribution in the order in which the schema declares the fields (none is
  skipped after the first error).  When the submission is a POST to a
  configured form that has passed both anti-spam checks and the list of errors
  is not empty, the handler returns them joined with \<^verbatim>\<open>"; "\<close> in one 400
  response, and no hook is called.
\<close>

theorem validation_errors_collected:
  assumes "\<forall>f \<in> set fs. checkable data f"
  shows "validateRequiredFields data fs = Inr (concat (map (field_errors data) fs))
    \<and> (posted_to hooks ev data form_id key
         \<and> map_of (FORM_CONFIGS hooks) key = Some cfg \<and> requiredFields cfg = fs
         \<and> checkHoneypot data = Inr True \<and> checkTimestamp e data = Inr True
         \<and> concat (map (field_errors data) fs) \<noteq> [] \<longrightarrow>
       handler hooks e ev
       = (Returned (errorResponse
            (join ''; '' (concat (map (field_errors data) fs))) 400), []))"
  using validateRequiredFields_collects [OF assms]
    handler_validation_failed [of hooks ev data form_id key cfg e]
  by auto

theorem validation_errors_collected_witness:
  "checkable two_errors_submission ''name'' \<and> checkable two_errors_submission ''email''
   \<and> checkable two_errors_submission ''message''
   \<and> posted_to source_hooks (post two_errors_submission) two_errors_submission
        (JStr ''contact'') ''contact''
   \<and> map_of (FORM_CONFIGS source_hooks) ''contact'' = Some contact_config
   \<and> requiredFields contact_config = [''name'', ''email'', ''message'']
   \<and> checkHoneypot two_errors_submission = Inr True
   \<and> checkTimestamp sample_env two_errors_submission = Inr True
   \<and> concat (map (field_errors two_errors_submission) [''name'', ''email'', ''message''])
       = [''email: Invalid email format'', ''Missing required field: message'']
   \<and> validateRequiredFields two_errors_submission [''name'', ''email'', ''message'']
       = Inr [''email: Invalid email format'', ''Missing required field: message'']
   \<and> handler source_hooks sample_env (post two_errors_submission)
       = (Returned (errorResponse
            ''email: Invalid email format; Missing required field: message'' 400), [])"
proof -
  have c: "\<forall>f \<in> set [''name'', ''email'', ''message'']. checkable two_errors_submission f"
    by code_simp
  have p: "posted_to source_hooks (post two_errors_submission) two_errors_submission
              (JStr ''contact'') ''contact''"
    by code_simp
  have g: "map_of (FORM_CONFIGS source_hooks) ''contact'' = Some contact_config"
      "requiredFields contact_config = [''name'', ''email'', ''message'']"
    by (simp_all add: FORM_CONFIGS_def contact_config_def)
  have s: "checkHoneypot two_errors_submission = Inr True"
      "checkTimestamp sample_env two_errors_submission = Inr True"
    by code_simp+
  have l: "concat (map (field_errors two_errors_submission) [''name'', ''email'', ''message''])
       = [''email: Invalid email format'', ''Missing required field: message'']"
    by code_simp
  note t = validation_errors_collected [OF c, of source_hooks "post two_errors_submission"
      "JStr ''contact''" "''contact''" contact_config sample_env, unfolded l]
  from t have v: "validateRequiredFields two_errors_submission
      [''name'', ''email'', ''message'']
       = Inr [''email: Invalid email format'', ''Missing required field: message'']"
    by blast
  from t p g s have h: "handler source_hooks sample_env (post two_errors_submission)
       = (Returned (errorResponse
            ''email: Invalid email format; Missing required field: message'' 400), [])"
    by simp
  from c p g s l v h show ?thesis by simp
qed

section \<open>Every response is an envelope\<close>

lemma reply_success [simp]: "reply (successResponse m)"
  by (simp add: reply_def successResponse_def jsonResponse_def)

lemma reply_error [simp]: "c \<in> {400, 405, 500} \<Longrightarrow> reply (errorResponse m c)"
  by (auto simp: reply_def errorResponse_def jsonResponse_def)

lemma dispatch_reply:
  assumes "dispatch e form_id key formConfig data = (Returned r, effs)"
  shows "reply r"
  using assms
  by (auto simp: dispatch_def Let_def
      split: member.splits sum.splits if_splits option.splits action_result.splits)

lemma antispam_reply:
  assumes "antispam e form_id key formConfig data = (Returned r, effs)"
  shows "reply r"
  using assms dispatch_reply [of e form_id key formConfig data r effs]
  by (auto simp: antispam_def split: sum.splits bool.splits)

lemma resolve_reply:
  assumes "resolve hooks e data = (Returned r, effs)"
  shows "reply r"
proof (cases "truthy_opt (map_of data ''form_id'')")
  case False
  with assms show ?thesis by (auto simp: resolve_def)
next
  case True
  show ?thesis
  proof (cases "ToString (the (map_of data ''form_id''))")
    case (Inl err)
    with True assms show ?thesis by (simp add: resolve_def)
  next
    case (Inr key)
    show ?thesis
    proof (cases "FORM_CONFIGS_get hooks key = Undefined")
      case u: True
      with True Inr assms show ?thesis by (auto simp: resolve_def)
    next
      case False
      with True Inr assms
      have "antispam e (the (map_of data ''form_id'')) key (FORM_CONFIGS_get hooks key) data
            = (Returned r, effs)"
        by (cases "FORM_CONFIGS_get hooks key") (auto simp: resolve_def Let_def)
      then show ?thesis by (rule antispam_reply)
    qed
  qed
qed

lemma handler_reply:
  assumes "handler hooks e ev = (Returned r, effs)"
  shows "envelope ev r"
proof (cases "httpMethod ev = ''OPTIONS''")
  case True
  with assms show ?thesis
    by (auto simp: handler_def envelope_def jsonResponse_def)
next
  case False
  have "reply r"
  proof (cases "httpMethod ev = ''POST''")
    case np: False
    with False assms show ?thesis by (auto simp: handler_def)
  next
    case True
    show ?thesis
    proof (cases "parsed_body ev")
      case None
      with True assms show ?thesis by (auto simp: handler_def)
    next
      case (Some d)
      show ?thesis
      proof (cases "\<exists>data. d = JObj data")
        case True
        then obtain data where "d = JObj data" ..
        with \<open>httpMethod ev = ''POST''\<close> Some assms
        have "resolve hooks e data = (Returned r, effs)" by (simp add: handler_def)
        then show ?thesis by (rule resolve_reply)
      next
        case no: False
        with \<open>httpMethod ev = ''POST''\<close> Some assms show ?thesis
          by (cases d) (auto simp: handler_def)
      qed
    qed
  qed
  with False show ?thesis by (simp add: envelope_def)
qed

lemma primitive_stringable: "primitive v \<Longrightarrow> stringable v"
  by (cases v) (simp_all add: stringable_def)

lemma required_not_inherited:
  assumes "map_of (FORM_CONFIGS hooks) key = Some cfg" and "f \<in> set (requiredFields cfg)"
  shows "f \<notin> set Object_prototype_keys"
  using assms
  by (auto simp: FORM_CONFIGS_def Object_prototype_keys_def split: if_splits)

lemma dispatch_returns:
  assumes "map_of (FORM_CONFIGS hooks) key = Some cfg"
    and "convertible data ''email''" and "convertible data ''phone''"
  shows "\<exists>r effs. dispatch e form_id key (Own cfg) data = (Returned r, effs)"
proof -
  have "\<forall>f \<in> set (requiredFields cfg). checkable data f"
    using required_not_inherited [OF assms(1)] assms(2,3)
    by (auto simp: checkable_def)
  from validateRequiredFields_collects [OF this] show ?thesis
    by (auto simp: dispatch_def Let_def split: option.splits action_result.splits)
qed

lemma checkHoneypot_returns:
  assumes "plain_submission data"
  shows "\<exists>b. checkHoneypot data = Inr b"
  using assms
  by (auto simp: plain_submission_def checkHoneypot_def split: option.splits json.splits)

lemma checkTimestamp_returns:
  assumes "convertible data ''_timestamp''"
  shows "\<exists>b. checkTimestamp e data = Inr b"
proof (cases "map_of data ''_timestamp''")
  case None
  then show ?thesis by (auto simp: checkTimestamp_def)
next
  case (Some ts)
  with assms obtain str where "ToString ts = Inr str"
    by (auto simp: convertible_def stringable_def split: sum.splits)
  with Some show ?thesis
    by (auto simp: checkTimestamp_def Let_def split: option.splits)
qed

lemma antispam_returns:
  assumes "map_of (FORM_CONFIGS hooks) key = Some cfg" and "plain_submission data"
  shows "\<exists>r effs. antispam e form_id key (Own cfg) data = (Returned r, effs)"
proof -
  from assms(2) have p: "convertible data ''_timestamp''" "convertible data ''email''"
      "convertible data ''phone''"
    by (simp_all add: plain_submission_def)
  from checkHoneypot_returns [OF assms(2)] obtain b where b: "checkHoneypot data = Inr b" ..
  from checkTimestamp_returns [OF p(1)] obtain b' where b': "checkTimestamp e data = Inr b'" ..
  from dispatch_returns [OF assms(1) p(2,3)] b b' show ?thesis
    by (cases b; cases b') (auto simp: antispam_def)
qed

lemma resolve_returns:
  assumes "plain_submission data"
  shows "\<exists>r effs. resolve hooks e data = (Returned r, effs)"
proof (cases "truthy_opt (map_of data ''form_id'')")
  case False
  then show ?thesis by (simp add: resolve_def)
next
  case True
  then obtain form_id where f: "map_of data ''form_id'' = Some form_id"
    by (cases "map_of data ''form_id''") auto
  from assms f obtain key where key: "ToString form_id = Inr key"
    by (auto simp: plain_submission_def convertible_def stringable_def split: sum.splits)
  from assms f key have ni: "key \<notin> set Object_prototype_keys"
    by (simp add: plain_submission_def)
  show ?thesis
  proof (cases "map_of (FORM_CONFIGS hooks) key")
    case None
    with ni have "FORM_CONFIGS_get hooks key = Undefined"
      by (simp add: FORM_CONFIGS_get_def)
    with True f key show ?thesis by (simp add: resolve_def)
  next
    case (Some cfg)
    then have "FORM_CONFIGS_get hooks key = Own cfg"
      by (simp add: FORM_CONFIGS_get_def)
    with True f key antispam_returns [OF Some assms, of e form_id] show ?thesis
      by (simp add: resolve_def)
  qed
qed

lemma handler_returns:
  assumes "handled_event ev"
  shows "\<exists>r effs. handler hooks e ev = (Returned r, effs)"
proof (cases "httpMethod ev = ''POST''")
  case False
  then show ?thesis by (simp add: handler_def)
next
  case True
  show ?thesis
  proof (cases "parsed_body ev")
    case None
    with True show ?thesis by (simp add: handler_def)
  next
    case (Some d)
    show ?thesis
    proof (cases d)
      case JNull
      with True Some assms show ?thesis by (simp add: handled_event_def)
    next
      case (JObj data)
      with True Some assms have "plain_submission data" by (simp add: handled_event_def)
      from resolve_returns [OF this, of hooks e] True Some JObj show ?thesis
        by (simp add: handler_def)
    qed (use True Some in \<open>simp_all add: handler_def\<close>)
  qed
qed

text \<open>
  What holds of the responses.  Every response that the handler returns is a
  well-formed envelope: the fixed headers, and status 200 with the body
  \<^verbatim>\<open>{}\<close> for \<^verbatim>\<open>OPTIONS\<close> (the preflight answer has no \<^verbatim>\<open>success\<close>
  field), otherwise a status among 200, 400, 405 and 500 with a JSON body that
  has a boolean \<^verbatim>\<open>success\<close>.  \<open>handled_event\<close> is a sufficient condition for
  the handler to return: it does so for every event that is not a POST, for
  every POST whose body is not JSON or parses to a value that is neither
  \<^verbatim>\<open>null\<close> nor an object, and for every POST of a plain submission.
\<close>

lemma handler_envelope:
  "(\<forall>r effs. handler hooks e ev = (Returned r, effs) \<longrightarrow> envelope ev r)
   \<and> (handled_event ev \<longrightarrow> (\<exists>r effs. handler hooks e ev = (Returned r, effs)))"
  using handler_reply handler_returns by blast

lemma handler_envelope_instance:
  "handled_event (post valid_submission)
   \<and> (\<exists>r effs. handler source_hooks sample_env (post valid_submission) = (Returned r, effs))
   \<and> handler source_hooks sample_env (post valid_submission)
       = (Returned (successResponse ''contact form submitted successfully''),
          [OnSuccess ''contact''
             (sanitized_submission sample_env (JStr ''contact'') valid_submission)])
   \<and> envelope (post valid_submission)
         (successResponse ''contact form submitted successfully'')"
proof -
  have h: "handled_event (post valid_submission)"
    by code_simp
  have r: "handler source_hooks sample_env (post valid_submission)
       = (Returned (successResponse ''contact form submitted successfully''),
          [OnSuccess ''contact''
             (sanitized_submission sample_env (JStr ''contact'') valid_submission)])"
    by code_simp
  from handler_envelope [of source_hooks sample_env "post valid_submission"] h r
  show ?thesis by simp
qed

text \<open>
  C1 fails on the code at the inputs it names.  A body that parses to
  \<^verbatim>\<open>null\<close> passes the \<^verbatim>\<open>try\<close> of lines 179 to 183, and the destructuring
  of line 186 then throws a \<^verbatim>\<open>TypeError\<close>.  A numeric \<^verbatim>\<open>_honey\<close> is truthy
  and has no \<^verbatim>\<open>trim\<close>, so line 101 throws a \<^verbatim>\<open>TypeError\<close>; line 82 guards
  the same call with \<^verbatim>\<open>typeof\<close>, line 101 does not.  Nothing catches either
  exception: the run ends without a response.
\<close>

theorem handler_uncaught_TypeError:
  "handler source_hooks sample_env \<lparr>httpMethod = ''POST'', parsed_body = Some JNull\<rparr>
     = (Threw TypeError, [])
   \<and> handler source_hooks sample_env (post numeric_honey_submission)
     = (Threw TypeError, [])"
  by code_simp

section \<open>What the handler can throw\<close>

text \<open>
  Every exception of a run of the model is a \<^verbatim>\<open>TypeError\<close>, raised before
  any hook is called.  In particular the handler never reaches an inherited
  validator: the required fields of the four forms are not named like members
  of \<^verbatim>\<open>Object.prototype\<close>.  The \<^verbatim>\<open>RangeError\<close> of an engine that runs out
  of stack on a very deeply nested array is outside the model.
\<close>

lemma join_results_Inl: "join_results rs = Inl err \<Longrightarrow> Inl err \<in> set rs"
  by (induction rs) (auto split: sum.splits if_splits)

lemma ToString_TypeError: "ToString v = Inl err \<Longrightarrow> err = TypeError"
proof (induction v rule: ToString.induct)
  case (5 xs)
  from join_results_Inl [OF 5(2) [simplified]] obtain x
    where "x \<in> set xs" "x \<noteq> JNull" "ToString x = Inl err"
    by (auto split: if_splits)
  with 5(1) show ?case by auto
qed (auto split: if_splits)

lemma validateField_error:
  assumes "validateField f v = Inl err" and "f \<notin> set Object_prototype_keys"
  shows "err = TypeError"
  using assms ToString_TypeError [of v err]
  by (auto simp: validateField_def validate_email_def validate_phone_def
      split: if_splits sum.splits)

lemma validate_loop_error:
  assumes "validate_loop data fs acc = Inl err"
    and "\<forall>f \<in> set fs. f \<notin> set Object_prototype_keys"
  shows "err = TypeError"
  using assms
proof (induction fs arbitrary: acc)
  case Nil
  then show ?case by simp
next
  case (Cons f fs)
  then show ?case
    using validateField_error [of f "the (map_of data f)" err]
    by (auto split: if_splits sum.splits option.splits)
qed

lemma dispatch_error:
  assumes "dispatch e form_id key (FORM_CONFIGS_get hooks key) data = (Threw err, effs)"
  shows "err = TypeError \<and> effs = []"
proof (cases "FORM_CONFIGS_get hooks key")
  case (Own cfg)
  then have m: "map_of (FORM_CONFIGS hooks) key = Some cfg"
    by (auto simp: FORM_CONFIGS_get_def split: option.splits if_splits)
  have "\<forall>f \<in> set (requiredFields cfg). f \<notin> set Object_prototype_keys"
    using required_not_inherited [OF m] by blast
  with assms Own show ?thesis
    using validate_loop_error [of data "requiredFields cfg" "[]" err]
    by (auto simp: dispatch_def Let_def validateRequiredFields_def
        split: sum.splits if_splits option.splits action_result.splits)
qed (use assms in \<open>auto simp: dispatch_def\<close>)

lemma handler_error:
  assumes "handler hooks e ev = (Threw err, effs)"
  shows "err = TypeError \<and> effs = []"
proof -
  from assms have post: "httpMethod ev = ''POST''"
    by (auto simp: handler_def split: if_splits)
  show ?thesis
  proof (cases "\<exists>data. parsed_body ev = Some (JObj data)")
    case False
    with assms post show ?thesis
      by (auto simp: handler_def split: option.splits json.splits)
  next
    case True
    then obtain data where b: "parsed_body ev = Some (JObj data)" ..
    with assms post have r: "resolve hooks e data = (Threw err, effs)"
      by (simp add: handler_def)
    then have t: "truthy_opt (map_of data ''form_id'')"
      by (auto simp: resolve_def split: if_splits)
    let ?f = "the (map_of data ''form_id'')"
    show ?thesis
    proof (cases "ToString ?f")
      case (Inl x)
      with r t ToString_TypeError [OF Inl] show ?thesis by (auto simp: resolve_def)
    next
      case (Inr key)
      with r t have a: "antispam e ?f key (FORM_CONFIGS_get hooks key) data = (Threw err, effs)"
        by (cases "FORM_CONFIGS_get hooks key") (auto simp: resolve_def Let_def)
      show ?thesis
      proof (cases "checkHoneypot data")
        case (Inl x)
        with a show ?thesis
          by (auto simp: antispam_def checkHoneypot_def split: option.splits if_splits json.splits)
      next
        case h: (Inr b)
        show ?thesis
        proof (cases "checkTimestamp e data")
          case (Inl x)
          then have "x = TypeError"
            using ToString_TypeError
            by (auto simp: checkTimestamp_def Let_def split: option.splits if_splits sum.splits)
          with a h Inl show ?thesis
            by (cases b) (auto simp: antispam_def)
        next
          case (Inr b')
          with a h dispatch_error [of e ?f key hooks data err effs] show ?thesis
            by (cases b; cases b') (auto simp: antispam_def)
        qed
      qed
    qed
  qed
qed

section \<open>The examples of the documentation\<close>

text \<open>
  The handler on the requests that the specification and the README give as
  examples: an invalid email, a newsletter subscription, the preflight request,
  a wrong method, an unknown form, and the escaping of the four characters.
\<close>

lemma spec_examples:
  "handler source_hooks sample_env
     (post [(''form_id'', JStr ''contact''), (''name'', JStr ''A''),
            (''email'', JStr ''bad-email''), (''message'', JStr ''hi'')])
   = (Returned (errorResponse ''email: Invalid email format'' 400), [])"
  "handler source_hooks sample_env
     (post [(''form_id'', JStr ''newsletter''), (''email'', JStr ''x@y.com'')])
   = (Returned (successResponse ''newsletter form submitted successfully''),
      [OnSuccess ''newsletter''
         [(''form_id'', JStr ''newsletter''), (''email'', JStr ''x@y.com''),
          (''submitted_at'', JStr ''2024-01-01T00:00:01.000Z'')]])"
  "handler source_hooks sample_env \<lparr>httpMethod = ''OPTIONS'', parsed_body = None\<rparr>
   = (Returned \<lparr>statusCode = 200, headers = cors_headers, body = JObj []\<rparr>, [])"
  "handler source_hooks sample_env \<lparr>httpMethod = ''GET'', parsed_body = None\<rparr>
   = (Returned (errorResponse ''Method not allowed. Use POST.'' 405), [])"
  "handler source_hooks sample_env (post [(''form_id'', JStr ''bogus'')])
   = (Returned (errorResponse
        ''Unknown form_id: bogus. Available forms: contact, newsletter, quote, callback''
        400), [])"
  "sanitizeInput (JStr [CHR ''<'', CHR ''a'', CHR 0x22, CHR 0x27, CHR ''>'', CHR ''&''])
   = JStr ''&lt;a&quot;&#x27;&gt;&''"
  by code_simp+


end
